theory Spec2Isabelle
  imports Main
begin

section \<open>Data model\<close>

text \<open>
  Timestamps (\<open>Date\<close>, \<open>Date.now()\<close>) are milliseconds since the epoch. Clock
  readings are arguments of the operations: they are the only source of time.
\<close>

type_synonym time = int

text \<open>
  Digests are symbolic: \<open>bcrypt.hash(p, rounds)\<close> is \<open>Bcrypt rounds p\<close> and
  \<open>bcrypt.compare\<close> accepts exactly the plaintext that was hashed; the hex SHA-256 digest
  of a refresh token is \<open>Sha256Hex token\<close>.
\<close>

datatype bcrypt_digest = Bcrypt nat string

datatype sha256_digest = Sha256Hex string

fun bcrypt_compare :: "string \<Rightarrow> bcrypt_digest \<Rightarrow> bool" where
  "bcrypt_compare p (Bcrypt r q) = (p = q)"

text \<open>Entity \<open>User\<close> (table \<open>users\<close>).\<close>

record user =
  user_id :: nat
  user_email :: string
  user_name :: "string option"
  user_password :: bcrypt_digest
  emailVerified :: bool
  user_createdAt :: time

text \<open>Entity \<open>Otp\<close> (table \<open>otps\<close>); the column \<open>type\<close> is an enum.\<close>

datatype otp_type = email_verification | password_reset

record otp =
  otp_id :: nat
  otp_email :: string
  hashedOtp :: bcrypt_digest
  otp_expiresAt :: time
  used :: bool
  otp_type :: otp_type
  otp_createdAt :: time
  otp_userId :: "nat option"

text \<open>Entity \<open>RefreshToken\<close> (table \<open>refresh_tokens\<close>).\<close>

record refresh_token =
  rt_id :: nat
  hashedToken :: sha256_digest
  rt_expiresAt :: time
  revoked :: bool
  userAgent :: "string option"
  ipAddress :: "string option"
  rt_createdAt :: time
  rt_userId :: nat

text \<open>
  The persistent store: the three tables in insertion order, each with the counter of its
  generated primary key. The bookkeeping column \<open>updatedAt\<close>, which the ORM maintains and
  no service reads, is left out.
\<close>

record db =
  users :: "user list"
  next_user_id :: nat
  otps :: "otp list"
  next_otp_id :: nat
  refresh_tokens :: "refresh_token list"
  next_rt_id :: nat

definition empty_db :: db where
  "empty_db = \<lparr>users = [], next_user_id = 1, otps = [], next_otp_id = 1,
     refresh_tokens = [], next_rt_id = 1\<rparr>"

text \<open>
  The exceptions the services throw. \<open>PleaseWait n\<close> is the
  \<open>BadRequestException\<close> with the message "Please wait n seconds before requesting a new
  OTP"; \<open>UserIdNotFound n\<close> is the \<open>NotFoundException\<close> with the message
  "User with ID n not found"; \<open>TypeError\<close> is the runtime error of reading a property of \<open>null\<close>.
\<close>

datatype http_exception =
    ConflictException string
  | UnauthorizedException string
  | BadRequestException string
  | PleaseWait int
  | NotFoundException string
  | UserIdNotFound nat
  | TypeError

text \<open>Configuration values read through \<open>ConfigService.get\<close>.\<close>

record config =
  OTP_EXPIRY_MINUTES :: int
  JWT_ACCESS_EXPIRES_IN :: string

definition default_config :: config where
  "default_config = \<lparr>OTP_EXPIRY_MINUTES = 10, JWT_ACCESS_EXPIRES_IN = ''15m''\<rparr>"

section \<open>OtpService\<close>

definition verifyOtp :: "string \<Rightarrow> bcrypt_digest \<Rightarrow> bool" where
  "verifyOtp code h = bcrypt_compare code h"

definition hashOtp :: "string \<Rightarrow> bcrypt_digest" where
  "hashOtp code = Bcrypt 10 code"

text \<open>\<open>cleanupExpiredOtps\<close>: delete every row with \<open>expiresAt < now\<close>.\<close>

definition cleanupExpiredOtps :: "time \<Rightarrow> db \<Rightarrow> db" where
  "cleanupExpiredOtps now d = d\<lparr>otps := filter (\<lambda>x. \<not> otp_expiresAt x < now) (otps d)\<rparr>"

text \<open>
  \<open>findOne\<close> with \<open>order: { createdAt: 'DESC' }\<close>: the row with the greatest
  \<open>createdAt\<close>; among equal ones the first in table order.
\<close>

fun latest_otp :: "otp list \<Rightarrow> otp option" where
  "latest_otp [] = None"
| "latest_otp (x # xs) =
     (case latest_otp xs of
        None \<Rightarrow> Some x
      | Some y \<Rightarrow> if otp_createdAt x < otp_createdAt y then Some y else Some x)"

text \<open>\<open>Math.ceil(ms / 1000)\<close> on an integer number of milliseconds.\<close>

definition ceil_seconds :: "int \<Rightarrow> int" where
  "ceil_seconds ms = - ((- ms) div 1000)"

text \<open>
  \<open>createEmailVerificationOtp(email, userId)\<close>. \<open>code\<close> is the value
  \<open>generateOtp()\<close> draws; \<open>now\<close> is the clock of the call.
\<close>

definition createEmailVerificationOtp ::
  "config \<Rightarrow> string \<Rightarrow> nat option \<Rightarrow> string \<Rightarrow> time \<Rightarrow> db \<Rightarrow> (http_exception + string) \<times> db" where
  "createEmailVerificationOtp cfg email userId code now d =
     (let d1 = cleanupExpiredOtps now d;
          oneMinuteAgo = now - 60 * 1000;
          recentOtp = latest_otp (filter (\<lambda>x. otp_email x = email
                         \<and> otp_type x = email_verification
                         \<and> otp_createdAt x < oneMinuteAgo) (otps d1))
      in case (case recentOtp of
                 None \<Rightarrow> None
               | Some r \<Rightarrow> if otp_createdAt r > oneMinuteAgo
                           then Some (ceil_seconds (oneMinuteAgo - otp_createdAt r))
                           else None) of
           Some remainingTime \<Rightarrow> (Inl (PleaseWait remainingTime), d1)
         | None \<Rightarrow>
            (let marked = map (\<lambda>x. if otp_email x = email \<and> otp_type x = email_verification
                                     \<and> \<not> used x
                                   then x\<lparr>used := True\<rparr> else x) (otps d1);
                 otpEntity = \<lparr>otp_id = next_otp_id d1, otp_email = email,
                              hashedOtp = hashOtp code,
                              otp_expiresAt = now + OTP_EXPIRY_MINUTES cfg * 60 * 1000,
                              used = False, otp_type = email_verification,
                              otp_createdAt = now, otp_userId = userId\<rparr>
             in (Inr code, d1\<lparr>otps := marked @ [otpEntity],
                               next_otp_id := Suc (next_otp_id d1)\<rparr>)))"

text \<open>
  The store calls of \<open>createEmailVerificationOtp\<close> in two groups. The first is the
  sweep, the rate-limit query and the update that marks the unused records of the address
  used; it yields the waiting time when the rate limit fires. The second, after the code
  has been drawn and hashed, is the \<open>save\<close> of the new record.
\<close>

definition createEmailVerificationOtp_invalidate :: "string \<Rightarrow> time \<Rightarrow> db \<Rightarrow> int option \<times> db" where
  "createEmailVerificationOtp_invalidate email now d =
     (let d1 = cleanupExpiredOtps now d;
          oneMinuteAgo = now - 60 * 1000;
          recentOtp = latest_otp (filter (\<lambda>x. otp_email x = email
                         \<and> otp_type x = email_verification
                         \<and> otp_createdAt x < oneMinuteAgo) (otps d1))
      in case (case recentOtp of
                 None \<Rightarrow> None
               | Some r \<Rightarrow> if otp_createdAt r > oneMinuteAgo
                           then Some (ceil_seconds (oneMinuteAgo - otp_createdAt r))
                           else None) of
           Some remainingTime \<Rightarrow> (Some remainingTime, d1)
         | None \<Rightarrow>
            (None, d1\<lparr>otps := map (\<lambda>x. if otp_email x = email \<and> otp_type x = email_verification
                                          \<and> \<not> used x
                                        then x\<lparr>used := True\<rparr> else x) (otps d1)\<rparr>))"

definition createEmailVerificationOtp_save ::
  "config \<Rightarrow> string \<Rightarrow> nat option \<Rightarrow> string \<Rightarrow> time \<Rightarrow> db \<Rightarrow> db" where
  "createEmailVerificationOtp_save cfg email userId code now d =
     d\<lparr>otps := otps d @ [\<lparr>otp_id = next_otp_id d, otp_email = email,
                           hashedOtp = hashOtp code,
                           otp_expiresAt = now + OTP_EXPIRY_MINUTES cfg * 60 * 1000,
                           used = False, otp_type = email_verification,
                           otp_createdAt = now, otp_userId = userId\<rparr>],
       next_otp_id := Suc (next_otp_id d)\<rparr>"

definition createEmailVerificationOtp_finish ::
  "config \<Rightarrow> string \<Rightarrow> nat option \<Rightarrow> string \<Rightarrow> time \<Rightarrow> int option \<Rightarrow> db
     \<Rightarrow> (http_exception + string) \<times> db" where
  "createEmailVerificationOtp_finish cfg email userId code now wait d =
     (case wait of
        Some remainingTime \<Rightarrow> (Inl (PleaseWait remainingTime), d)
      | None \<Rightarrow> (Inr code, createEmailVerificationOtp_save cfg email userId code now d))"


text \<open>
  \<open>verifyEmailOtp(email, otp)\<close>. The clock is read twice: \<open>t_sweep\<close> by the cleanup and
  \<open>t_check\<close> by the expiry test of the row found.
\<close>

definition verifyEmailOtp ::
  "string \<Rightarrow> string \<Rightarrow> time \<Rightarrow> time \<Rightarrow> db \<Rightarrow> bool \<times> db" where
  "verifyEmailOtp email code t_sweep t_check d =
     (let d1 = cleanupExpiredOtps t_sweep d in
      case latest_otp (filter (\<lambda>x. otp_email x = email \<and> otp_type x = email_verification
                                  \<and> \<not> used x) (otps d1)) of
        None \<Rightarrow> (False, d1)
      | Some otpEntity \<Rightarrow>
          if otp_expiresAt otpEntity < t_check then (False, d1)
          else if verifyOtp code (hashedOtp otpEntity)
          then (True, d1\<lparr>otps := map (\<lambda>x. if otp_id x = otp_id otpEntity
                                              then x\<lparr>used := True\<rparr> else x) (otps d1)\<rparr>)
          else (False, d1))"

section \<open>UsersService\<close>

text \<open>
  The column \<open>password\<close> is declared \<open>select: false\<close>: a query that does not select it
  returns the user without it.
\<close>

record user_view =
  uv_id :: nat
  uv_email :: string
  uv_name :: "string option"
  uv_emailVerified :: bool
  uv_createdAt :: time

text \<open>\<open>sanitizeUser\<close> of AuthService: the user without \<open>password\<close>.\<close>

definition sanitizeUser :: "user \<Rightarrow> user_view" where
  "sanitizeUser u = \<lparr>uv_id = user_id u, uv_email = user_email u, uv_name = user_name u,
     uv_emailVerified = emailVerified u, uv_createdAt = user_createdAt u\<rparr>"

definition findByEmail :: "string \<Rightarrow> db \<Rightarrow> user_view option" where
  "findByEmail email d = map_option sanitizeUser (find (\<lambda>u. user_email u = email) (users d))"

definition findByEmailWithPassword :: "string \<Rightarrow> db \<Rightarrow> user option" where
  "findByEmailWithPassword email d = find (\<lambda>u. user_email u = email) (users d)"

definition findOne :: "nat \<Rightarrow> db \<Rightarrow> http_exception + user_view" where
  "findOne uid d =
     (case find (\<lambda>u. user_id u = uid) (users d) of
        None \<Rightarrow> Inl (UserIdNotFound uid)
      | Some u \<Rightarrow> Inr (sanitizeUser u))"

text \<open>\<open>UsersService.create\<close>; \<open>emailVerified\<close> takes its column default.\<close>

definition users_create ::
  "string \<Rightarrow> string \<Rightarrow> string option \<Rightarrow> time \<Rightarrow> db \<Rightarrow> (http_exception + user) \<times> db" where
  "users_create email pw name now d =
     (case find (\<lambda>u. user_email u = email) (users d) of
        Some existingUser \<Rightarrow> (Inl (ConflictException ''User with this email already exists''), d)
      | None \<Rightarrow>
          (let u = \<lparr>user_id = next_user_id d, user_email = email, user_name = name,
                    user_password = Bcrypt 12 pw, emailVerified = False,
                    user_createdAt = now\<rparr>
           in (Inr u, d\<lparr>users := users d @ [u], next_user_id := Suc (next_user_id d)\<rparr>)))"

text \<open>\<open>UsersService.verifyEmail(userId)\<close>: update by id, then \<open>findOne\<close>.\<close>

definition users_verifyEmail :: "nat \<Rightarrow> db \<Rightarrow> (http_exception + user_view) \<times> db" where
  "users_verifyEmail uid d =
     (let d1 = d\<lparr>users := map (\<lambda>u. if user_id u = uid then u\<lparr>emailVerified := True\<rparr> else u)
                               (users d)\<rparr>
      in (findOne uid d1, d1))"

section \<open>AuthService\<close>

text \<open>The JWT payload, the signed access token and the result of login and refresh.\<close>

record jwt_payload =
  sub :: nat
  jwt_email :: string
  jwt_emailVerified :: bool

datatype access_token = JwtSign jwt_payload string

record auth_result =
  res_user :: user_view
  res_accessToken :: access_token
  res_refreshToken :: string

definition hashToken :: "string \<Rightarrow> sha256_digest" where
  "hashToken token = Sha256Hex token"

text \<open>\<open>expiresAt.setDate(expiresAt.getDate() + 30)\<close>, in days of 24 hours.\<close>

definition thirty_days :: int where
  "thirty_days = 30 * 24 * 60 * 60 * 1000"

text \<open>
  \<open>generateTokens(user, userAgent, ipAddress)\<close>; it reads \<open>id\<close>, \<open>email\<close> and
  \<open>emailVerified\<close> of the user. \<open>token\<close> is the value \<open>generateRefreshToken()\<close> draws.
\<close>

definition generateTokens ::
  "config \<Rightarrow> user_view \<Rightarrow> string option \<Rightarrow> string option \<Rightarrow> string \<Rightarrow> time \<Rightarrow> db
     \<Rightarrow> (access_token \<times> string) \<times> db" where
  "generateTokens cfg u ua ip token now d =
     (let payload = \<lparr>sub = uv_id u, jwt_email = uv_email u,
                      jwt_emailVerified = uv_emailVerified u\<rparr>;
          accessToken = JwtSign payload (JWT_ACCESS_EXPIRES_IN cfg);
          row = \<lparr>rt_id = next_rt_id d, hashedToken = hashToken token,
                  rt_expiresAt = now + thirty_days, revoked = False,
                  userAgent = ua, ipAddress = ip, rt_createdAt = now,
                  rt_userId = uv_id u\<rparr>
      in ((accessToken, token),
          d\<lparr>refresh_tokens := refresh_tokens d @ [row], next_rt_id := Suc (next_rt_id d)\<rparr>))"

text \<open>\<open>registerDto.name || null\<close>: a missing or empty name is stored as null.\<close>

definition name_or_null :: "string option \<Rightarrow> string option" where
  "name_or_null n = (case n of None \<Rightarrow> None | Some s \<Rightarrow> if s = [] then None else Some s)"

text \<open>
  \<open>register(registerDto)\<close>. \<open>mail_ok\<close> tells whether \<open>MailService.sendOtpEmail\<close>
  returns (rather than throws).
\<close>

definition register ::
  "config \<Rightarrow> string \<Rightarrow> string \<Rightarrow> string option \<Rightarrow> string \<Rightarrow> bool \<Rightarrow> time \<Rightarrow> db
     \<Rightarrow> (http_exception + string \<times> string) \<times> db" where
  "register cfg email pw name code mail_ok now d =
     (case findByEmail email d of
        Some existingUser \<Rightarrow> (Inl (ConflictException ''User with this email already exists''), d)
      | None \<Rightarrow>
          (case users_create email pw (name_or_null name) now d of
             (Inl e, d1) \<Rightarrow> (Inl e, d1)
           | (Inr u, d1) \<Rightarrow>
               (case createEmailVerificationOtp cfg email (Some (user_id u)) code now d1 of
                  (Inr otp, d2) \<Rightarrow>
                    if mail_ok
                    then (Inr (''Registration successful. Please check your email for verification code.'', email), d2)
                    else (Inr (''Registration successful. However, there was an issue sending the verification email. Please try resending the OTP.'', email), d2)
                | (Inl e, d2) \<Rightarrow>
                    (Inr (''Registration successful. However, there was an issue sending the verification email. Please try resending the OTP.'', email), d2))))"

text \<open>
  \<open>verifyEmail(verifyOtpDto)\<close>. A failure of the welcome email is caught and ignored, so
  it is no argument.
\<close>

definition verifyEmail ::
  "string \<Rightarrow> string \<Rightarrow> time \<Rightarrow> time \<Rightarrow> db \<Rightarrow> (http_exception + string \<times> user_view) \<times> db" where
  "verifyEmail email code t_sweep t_check d =
     (case verifyEmailOtp email code t_sweep t_check d of
        (False, d1) \<Rightarrow> (Inl (BadRequestException ''Invalid or expired OTP''), d1)
      | (True, d1) \<Rightarrow>
          (case findByEmail email d1 of
             None \<Rightarrow> (Inl (NotFoundException ''User not found''), d1)
           | Some u \<Rightarrow>
               if uv_emailVerified u
               then (Inl (BadRequestException ''Email is already verified''), d1)
               else (case users_verifyEmail (uv_id u) d1 of
                       (Inl e, d2) \<Rightarrow> (Inl e, d2)
                     | (Inr verifiedUser, d2) \<Rightarrow>
                         (Inr (''Email verified successfully'', verifiedUser), d2))))"

text \<open>\<open>resendOtp(resendOtpDto)\<close>.\<close>

definition resendOtp ::
  "config \<Rightarrow> string \<Rightarrow> string \<Rightarrow> bool \<Rightarrow> time \<Rightarrow> db \<Rightarrow> (http_exception + string) \<times> db" where
  "resendOtp cfg email code mail_ok now d =
     (case findByEmail email d of
        None \<Rightarrow> (Inl (NotFoundException ''User not found''), d)
      | Some u \<Rightarrow>
          if uv_emailVerified u
          then (Inl (BadRequestException ''Email is already verified''), d)
          else (case createEmailVerificationOtp cfg email (Some (uv_id u)) code now d of
                  (Inl e, d1) \<Rightarrow> (Inl e, d1)
                | (Inr otp, d1) \<Rightarrow>
                    if mail_ok
                    then (Inr ''OTP sent successfully. Please check your email.'', d1)
                    else (Inl (BadRequestException ''Failed to send OTP. Please try again later.''), d1)))"

text \<open>\<open>login(loginDto, userAgent, ipAddress)\<close>.\<close>

definition login ::
  "config \<Rightarrow> string \<Rightarrow> string \<Rightarrow> string option \<Rightarrow> string option \<Rightarrow> string \<Rightarrow> time \<Rightarrow> db
     \<Rightarrow> (http_exception + auth_result) \<times> db" where
  "login cfg email pw ua ip token now d =
     (case findByEmailWithPassword email d of
        None \<Rightarrow> (Inl (UnauthorizedException ''Invalid email or password''), d)
      | Some u \<Rightarrow>
          if \<not> emailVerified u
          then (Inl (UnauthorizedException ''Please verify your email before logging in''), d)
          else if \<not> bcrypt_compare pw (user_password u)
          then (Inl (UnauthorizedException ''Invalid email or password''), d)
          else (case generateTokens cfg (sanitizeUser u) ua ip token now d of
                  ((accessToken, refreshToken), d1) \<Rightarrow>
                    (Inr \<lparr>res_user = sanitizeUser u, res_accessToken = accessToken,
                          res_refreshToken = refreshToken\<rparr>, d1)))"

text \<open>
  \<open>refreshToken(refreshTokenDto, userAgent, ipAddress)\<close> in its two store phases. The
  first is the \<open>findOne\<close> on \<open>{ hashedToken, revoked: false }\<close> that also loads the
  relation \<open>user\<close> (without the password column).
\<close>

definition refreshToken_find :: "string \<Rightarrow> db \<Rightarrow> (refresh_token \<times> user_view option) option" where
  "refreshToken_find token d =
     (case find (\<lambda>r. hashedToken r = hashToken token \<and> \<not> revoked r) (refresh_tokens d) of
        None \<Rightarrow> None
      | Some r \<Rightarrow> Some (r, map_option sanitizeUser
                              (find (\<lambda>u. user_id u = rt_userId r) (users d))))"

text \<open>\<open>refreshTokenRepository.update(id, { revoked: true })\<close>.\<close>

definition revoke_by_id :: "nat \<Rightarrow> db \<Rightarrow> db" where
  "revoke_by_id i d =
     d\<lparr>refresh_tokens := map (\<lambda>r. if rt_id r = i then r\<lparr>revoked := True\<rparr> else r)
                               (refresh_tokens d)\<rparr>"

text \<open>
  The second phase is everything after the \<open>findOne\<close>: the test of its result, the expiry
  test, the update by id and \<open>generateTokens\<close>. \<open>newToken\<close> is the refresh token drawn
  for the successor.
\<close>

definition refreshToken_rotate ::
  "config \<Rightarrow> (refresh_token \<times> user_view option) option \<Rightarrow> string option \<Rightarrow> string option
     \<Rightarrow> string \<Rightarrow> time \<Rightarrow> db \<Rightarrow> (http_exception + auth_result) \<times> db" where
  "refreshToken_rotate cfg found ua ip newToken now d =
     (case found of
        None \<Rightarrow> (Inl (UnauthorizedException ''Invalid refresh token''), d)
      | Some (tokenEntity, tokenUser) \<Rightarrow>
          if rt_expiresAt tokenEntity < now
          then (Inl (UnauthorizedException ''Refresh token expired''),
                revoke_by_id (rt_id tokenEntity) d)
          else (let d1 = revoke_by_id (rt_id tokenEntity) d in
                case tokenUser of
                  None \<Rightarrow> (Inl TypeError, d1)
                | Some u \<Rightarrow>
                    (case generateTokens cfg u ua ip newToken now d1 of
                       ((accessToken, refreshToken), d2) \<Rightarrow>
                         (Inr \<lparr>res_user = u, res_accessToken = accessToken,
                               res_refreshToken = refreshToken\<rparr>, d2))))"

definition refreshToken ::
  "config \<Rightarrow> string \<Rightarrow> string option \<Rightarrow> string option \<Rightarrow> string \<Rightarrow> time \<Rightarrow> db
     \<Rightarrow> (http_exception + auth_result) \<times> db" where
  "refreshToken cfg token ua ip newToken now d =
     refreshToken_rotate cfg (refreshToken_find token d) ua ip newToken now d"


text \<open>\<open>logout(refreshToken)\<close>: the empty string is falsy.\<close>

definition logout :: "string \<Rightarrow> db \<Rightarrow> (http_exception + string) \<times> db" where
  "logout token d =
     (if token = [] then (Inl (BadRequestException ''Refresh token is required''), d)
      else (Inr ''Logged out successfully'',
            d\<lparr>refresh_tokens := map (\<lambda>r. if hashedToken r = hashToken token
                                            then r\<lparr>revoked := True\<rparr> else r)
                                      (refresh_tokens d)\<rparr>))"

text \<open>\<open>logoutFromAllDevices(userId)\<close>.\<close>

definition logoutFromAllDevices :: "nat \<Rightarrow> db \<Rightarrow> string \<times> db" where
  "logoutFromAllDevices uid d =
     (''Logged out from all devices successfully'',
      d\<lparr>refresh_tokens := map (\<lambda>r. if rt_userId r = uid \<and> \<not> revoked r
                                      then r\<lparr>revoked := True\<rparr> else r)
                                (refresh_tokens d)\<rparr>)"

text \<open>\<open>validateUser(payload)\<close>, the lookup behind the JWT strategy.\<close>

definition validateUser :: "jwt_payload \<Rightarrow> db \<Rightarrow> user_view option" where
  "validateUser payload d =
     (case findByEmail (jwt_email payload) d of
        None \<Rightarrow> None
      | Some u \<Rightarrow> if uv_emailVerified u then Some u else None)"

text \<open>
  \<open>getActiveSessions(userId)\<close>: the rows of the user with \<open>revoked: false\<close>, newest
  first, each mapped to its public fields.
\<close>

record session_view =
  sv_id :: nat
  sv_userAgent :: string
  sv_ipAddress :: string
  sv_createdAt :: time
  sv_expiresAt :: time

definition or_unknown :: "string option \<Rightarrow> string" where
  "or_unknown v = (case v of None \<Rightarrow> ''Unknown'' | Some s \<Rightarrow> if s = [] then ''Unknown'' else s)"

definition getActiveSessions :: "nat \<Rightarrow> db \<Rightarrow> session_view list" where
  "getActiveSessions uid d =
     map (\<lambda>session. \<lparr>sv_id = rt_id session, sv_userAgent = or_unknown (userAgent session),
                       sv_ipAddress = or_unknown (ipAddress session),
                       sv_createdAt = rt_createdAt session,
                       sv_expiresAt = rt_expiresAt session\<rparr>)
         (sort_key (\<lambda>r. - rt_createdAt r)
            (filter (\<lambda>r. rt_userId r = uid \<and> \<not> revoked r) (refresh_tokens d)))"

text \<open>The public fields \<open>getActiveSessions\<close> returns for a row.\<close>

definition session_view_of :: "refresh_token \<Rightarrow> session_view" where
  "session_view_of session =
     \<lparr>sv_id = rt_id session, sv_userAgent = or_unknown (userAgent session),
      sv_ipAddress = or_unknown (ipAddress session), sv_createdAt = rt_createdAt session,
      sv_expiresAt = rt_expiresAt session\<rparr>"

text \<open>
  \<open>revokeSession(userId, sessionId)\<close>: \<open>affected\<close> is the number of rows the update
  matched.
\<close>

definition revokeSession :: "nat \<Rightarrow> nat \<Rightarrow> db \<Rightarrow> (http_exception + string) \<times> db" where
  "revokeSession uid sid d =
     (let matches = (\<lambda>r. rt_id r = sid \<and> rt_userId r = uid \<and> \<not> revoked r);
          affected = length (filter matches (refresh_tokens d));
          d1 = d\<lparr>refresh_tokens := map (\<lambda>r. if matches r then r\<lparr>revoked := True\<rparr> else r)
                                         (refresh_tokens d)\<rparr>
      in if affected = 0 then (Inl (NotFoundException ''Session not found''), d1)
         else (Inr ''Session revoked successfully'', d1))"

section \<open>Executions\<close>




text \<open>The state-changing public methods of AuthService as operations on the store.\<close>

datatype auth_op =
    Register string string "string option" string bool time
  | VerifyEmail string string time time
  | ResendOtp string string bool time
  | Login string string "string option" "string option" string time
  | RefreshToken string "string option" "string option" string time
  | Logout string
  | LogoutFromAllDevices nat
  | RevokeSession nat nat

fun auth_step :: "config \<Rightarrow> auth_op \<Rightarrow> db \<Rightarrow> db" where
  "auth_step cfg (Register email pw name code mail_ok now) d =
     snd (register cfg email pw name code mail_ok now d)"
| "auth_step cfg (VerifyEmail email code t_sweep t_check) d =
     snd (verifyEmail email code t_sweep t_check d)"
| "auth_step cfg (ResendOtp email code mail_ok now) d =
     snd (resendOtp cfg email code mail_ok now d)"
| "auth_step cfg (Login email pw ua ip token now) d =
     snd (login cfg email pw ua ip token now d)"
| "auth_step cfg (RefreshToken token ua ip newToken now) d =
     snd (refreshToken cfg token ua ip newToken now d)"
| "auth_step cfg (Logout token) d = snd (logout token d)"
| "auth_step cfg (LogoutFromAllDevices uid) d = snd (logoutFromAllDevices uid d)"
| "auth_step cfg (RevokeSession uid sid) d = snd (revokeSession uid sid d)"

fun auth_run :: "config \<Rightarrow> auth_op list \<Rightarrow> db \<Rightarrow> db" where
  "auth_run cfg [] d = d"
| "auth_run cfg (x # xs) d = auth_run cfg xs (auth_step cfg x d)"

text \<open>The refresh tokens an operation draws from the random generator.\<close>

fun drawn_tokens :: "auth_op \<Rightarrow> string list" where
  "drawn_tokens (Login email pw ua ip token now) = [token]"
| "drawn_tokens (RefreshToken token ua ip newToken now) = [newToken]"
| "drawn_tokens _ = []"

section \<open>Example states\<close>

text \<open>
  A run of the service used to instantiate the theorems below: a registration at time 0,
  the verification of the address one second later, a login one second after that.
\<close>

definition ex_registered :: db where
  "ex_registered =
     snd (register default_config ''a@x.com'' ''Password1'' (Some ''A'') ''123456'' True 0 empty_db)"

definition ex_verified :: db where
  "ex_verified = snd (verifyEmail ''a@x.com'' ''123456'' 1000 1000 ex_registered)"

definition ex_logged_in :: db where
  "ex_logged_in =
     snd (login default_config ''a@x.com'' ''Password1'' (Some ''agent'') (Some ''10.0.0.1'')
            ''tokenA'' 2000 ex_verified)"

text \<open>
  A second issuance for the address of the run, ten seconds after the registration issued
  the first code.
\<close>

definition ex_second_issue :: "(http_exception + string) \<times> db" where
  "ex_second_issue =
     createEmailVerificationOtp default_config ''a@x.com'' (Some 1) ''222222'' 10000 ex_registered"


text \<open>The same run as a list of operations, and what follows a rotation of its token.\<close>

definition ex_before :: "auth_op list" where
  "ex_before =
     [Register ''a@x.com'' ''Password1'' (Some ''A'') ''123456'' True 0,
      VerifyEmail ''a@x.com'' ''123456'' 1000 1000,
      Login ''a@x.com'' ''Password1'' (Some ''agent'') (Some ''10.0.0.1'') ''tokenA'' 2000]"

definition ex_after :: "auth_op list" where
  "ex_after =
     [Login ''a@x.com'' ''Password1'' None None ''tokenC'' 4000, Logout ''tokenC'']"

text \<open>A further code issued for the address after its verification.\<close>

definition ex_reissued :: db where
  "ex_reissued =
     snd (createEmailVerificationOtp default_config ''a@x.com'' (Some 1) ''654321'' 5000 ex_verified)"

text \<open>The session of the run, revoked by its owner.\<close>

definition ex_revoked :: db where
  "ex_revoked = snd (revokeSession 1 1 ex_logged_in)"

text \<open>The payload of the access token the login of the run mints.\<close>

definition ex_payload :: jwt_payload where
  "ex_payload = \<lparr>sub = 1, jwt_email = ''a@x.com'', jwt_emailVerified = True\<rparr>"

section \<open>Predicates on the tables\<close>

text \<open>No unrevoked row carries the digest of the token.\<close>

definition token_dead :: "string \<Rightarrow> refresh_token list \<Rightarrow> bool" where
  "token_dead token rows \<longleftrightarrow> (\<forall>r \<in> set rows. hashedToken r = hashToken token \<longrightarrow> revoked r)"

text \<open>
  How an operation may change the table of refresh tokens: rows keep their digest and stay
  revoked once revoked, and at most one row is appended, for a token the operation drew.
\<close>

definition rt_succ :: "string list \<Rightarrow> refresh_token list \<Rightarrow> refresh_token list \<Rightarrow> bool" where
  "rt_succ toks xs ys \<longleftrightarrow>
     (\<exists>f extra. ys = map f xs @ extra
        \<and> (\<forall>r. hashedToken (f r) = hashedToken r \<and> (revoked r \<longrightarrow> revoked (f r)))
        \<and> (extra = [] \<or> (\<exists>row tok. extra = [row] \<and> tok \<in> set toks
                               \<and> hashedToken row = hashToken tok)))"


section \<open>Evaluation of the example states\<close>

lemmas eval_defs = register_def findByEmail_def users_create_def name_or_null_def
  createEmailVerificationOtp_def cleanupExpiredOtps_def empty_db_def default_config_def
  hashOtp_def Let_def verifyEmail_def verifyEmailOtp_def verifyOtp_def users_verifyEmail_def
  findOne_def sanitizeUser_def login_def findByEmailWithPassword_def generateTokens_def
  hashToken_def thirty_days_def

lemma ex_registered_eq: "ex_registered =
  \<lparr>users = [\<lparr>user_id = 1, user_email = ''a@x.com'', user_name = Some ''A'',
              user_password = Bcrypt 12 ''Password1'', emailVerified = False, user_createdAt = 0\<rparr>],
   next_user_id = 2,
   otps = [\<lparr>otp_id = 1, otp_email = ''a@x.com'', hashedOtp = Bcrypt 10 ''123456'',
             otp_expiresAt = 600000, used = False, otp_type = email_verification,
             otp_createdAt = 0, otp_userId = Some 1\<rparr>],
   next_otp_id = 2, refresh_tokens = [], next_rt_id = 1\<rparr>"
  by (simp add: ex_registered_def eval_defs)

lemma ex_verified_eq: "ex_verified =
  \<lparr>users = [\<lparr>user_id = 1, user_email = ''a@x.com'', user_name = Some ''A'',
              user_password = Bcrypt 12 ''Password1'', emailVerified = True, user_createdAt = 0\<rparr>],
   next_user_id = 2,
   otps = [\<lparr>otp_id = 1, otp_email = ''a@x.com'', hashedOtp = Bcrypt 10 ''123456'',
             otp_expiresAt = 600000, used = True, otp_type = email_verification,
             otp_createdAt = 0, otp_userId = Some 1\<rparr>],
   next_otp_id = 2, refresh_tokens = [], next_rt_id = 1\<rparr>"
  by (simp add: ex_verified_def ex_registered_eq eval_defs)

lemma ex_logged_in_eq: "ex_logged_in =
  \<lparr>users = [\<lparr>user_id = 1, user_email = ''a@x.com'', user_name = Some ''A'',
              user_password = Bcrypt 12 ''Password1'', emailVerified = True, user_createdAt = 0\<rparr>],
   next_user_id = 2,
   otps = [\<lparr>otp_id = 1, otp_email = ''a@x.com'', hashedOtp = Bcrypt 10 ''123456'',
             otp_expiresAt = 600000, used = True, otp_type = email_verification,
             otp_createdAt = 0, otp_userId = Some 1\<rparr>],
   next_otp_id = 2,
   refresh_tokens = [\<lparr>rt_id = 1, hashedToken = Sha256Hex ''tokenA'', rt_expiresAt = 2592002000,
             revoked = False, userAgent = Some ''agent'', ipAddress = Some ''10.0.0.1'',
             rt_createdAt = 2000, rt_userId = 1\<rparr>],
   next_rt_id = 2\<rparr>"
  by (simp add: ex_logged_in_def ex_verified_eq eval_defs)

section \<open>OTP issuance and the cooldown\<close>

lemma latest_otp_in: "latest_otp xs = Some y \<Longrightarrow> y \<in> set xs"
  by (induction xs arbitrary: y) (auto split: option.splits if_splits)

lemma latest_otp_None: "latest_otp xs = None \<longleftrightarrow> xs = []"
  by (cases xs) (auto split: option.splits)


text \<open>
  C2 (the second issuance within the cooldown window fails with RateLimited and creates no
  record). On the code, ten seconds after the registration of the example issued the first
  code, a second issuance for the same address and user returns its code, and the store
  then holds two records: the first marked used and the new one. \<open>resendOtp\<close>, the
  caller of that issuance, reports success with the same store.
\<close>

theorem issue_within_cooldown_succeeds:
  "fst ex_second_issue = Inr ''222222''
   \<and> map otp_id (otps ex_registered) = [1]
   \<and> map otp_createdAt (otps ex_registered) = [0]
   \<and> map otp_id (otps (snd ex_second_issue)) = [1, 2]
   \<and> map used (otps (snd ex_second_issue)) = [True, False]
   \<and> map otp_createdAt (otps (snd ex_second_issue)) = [0, 10000]
   \<and> resendOtp default_config ''a@x.com'' ''222222'' True 10000 ex_registered
       = (Inr ''OTP sent successfully. Please check your email.'', snd ex_second_issue)"
  by (simp add: ex_second_issue_def ex_registered_eq eval_defs resendOtp_def)

section \<open>A failing OTP verification\<close>

text \<open>
  C4 as stated (a verification that returns false leaves the OTP store exactly unchanged)
  fails: the call opens with the sweep of expired records. Eleven minutes after the
  registration the record of the example has expired; a verification with a wrong code
  returns false and the record is gone.
\<close>

theorem verify_failure_changes_store:
  "fst (verifyEmailOtp ''a@x.com'' ''000000'' 660000 660000 ex_registered) = False
   \<and> otps (snd (verifyEmailOtp ''a@x.com'' ''000000'' 660000 660000 ex_registered)) = []
   \<and> otps ex_registered \<noteq> []"
  by (simp add: ex_registered_eq verifyEmailOtp_def cleanupExpiredOtps_def)

text \<open>
  C4, amended: a verification that returns false changes the store by the sweep of the
  expired records only (the records whose \<open>expiresAt\<close> lies before the clock reading of
  the sweep): no record is marked used and none is created.
\<close>

theorem verify_failure_only_sweeps:
  "fst (verifyEmailOtp email code t_sweep t_check d) = False \<Longrightarrow>
   snd (verifyEmailOtp email code t_sweep t_check d) = cleanupExpiredOtps t_sweep d"
  by (auto simp: verifyEmailOtp_def Let_def split: option.splits if_splits)

theorem verify_failure_only_sweeps_witness:
  "fst (verifyEmailOtp ''a@x.com'' ''000000'' 1000 1000 ex_registered) = False
   \<and> snd (verifyEmailOtp ''a@x.com'' ''000000'' 1000 1000 ex_registered)
       = cleanupExpiredOtps 1000 ex_registered
   \<and> cleanupExpiredOtps 1000 ex_registered = ex_registered"
proof -
  have h: "fst (verifyEmailOtp ''a@x.com'' ''000000'' 1000 1000 ex_registered) = False"
    by (simp add: ex_registered_eq verifyEmailOtp_def cleanupExpiredOtps_def verifyOtp_def)
  have c: "cleanupExpiredOtps 1000 ex_registered = ex_registered"
    by (simp add: ex_registered_eq cleanupExpiredOtps_def)
  show ?thesis using h c verify_failure_only_sweeps [OF h] by simp
qed

lemma ex_revoked_eq: "refresh_tokens ex_revoked =
   [\<lparr>rt_id = 1, hashedToken = Sha256Hex ''tokenA'', rt_expiresAt = 2592002000,
             revoked = True, userAgent = Some ''agent'', ipAddress = Some ''10.0.0.1'',
             rt_createdAt = 2000, rt_userId = 1\<rparr>]"
  by (simp add: ex_revoked_def ex_logged_in_eq revokeSession_def Let_def)

section \<open>Login failures\<close>

text \<open>
  C3 as stated (one single message for an absent user, an unverified user and a wrong
  password) fails: after the registration of the example, before the address is verified,
  a login for it is refused with a message of its own, different from the one a login for
  an unknown address gets.
\<close>

theorem login_unverified_message_differs:
  "fst (login default_config ''a@x.com'' ''Password1'' None None ''t'' 500 ex_registered)
     = Inl (UnauthorizedException ''Please verify your email before logging in'')
   \<and> fst (login default_config ''b@x.com'' ''Password1'' None None ''t'' 500 ex_registered)
     = Inl (UnauthorizedException ''Invalid email or password'')
   \<and> fst (login default_config ''a@x.com'' ''Password1'' None None ''t'' 500 ex_registered)
     \<noteq> fst (login default_config ''b@x.com'' ''Password1'' None None ''t'' 500 ex_registered)"
  by (simp add: ex_registered_eq login_def findByEmailWithPassword_def)

text \<open>
  C3, amended: a login for an absent user, an unverified user or with a wrong password
  fails with Unauthorized and leaves the store unchanged; the message is "Invalid email or
  password" for an absent user and for a wrong password, and "Please verify your email
  before logging in" for a user whose address is not verified (tested before the
  password).
\<close>

theorem login_failure_messages:
  assumes "findByEmailWithPassword email d = None
     \<or> (\<exists>u. findByEmailWithPassword email d = Some u
            \<and> (\<not> emailVerified u \<or> \<not> bcrypt_compare pw (user_password u)))"
  shows "login cfg email pw ua ip token now d =
     (Inl (UnauthorizedException
        (if \<exists>u. findByEmailWithPassword email d = Some u \<and> \<not> emailVerified u
         then ''Please verify your email before logging in''
         else ''Invalid email or password'')), d)"
  using assms by (auto simp: login_def split: option.splits)

theorem login_failure_messages_witness:
  "login default_config ''b@x.com'' ''Password1'' None None ''t'' 500 ex_registered
     = (Inl (UnauthorizedException ''Invalid email or password''), ex_registered)
   \<and> login default_config ''a@x.com'' ''Password1'' None None ''t'' 500 ex_registered
     = (Inl (UnauthorizedException ''Please verify your email before logging in''), ex_registered)
   \<and> login default_config ''a@x.com'' ''wrong'' None None ''t'' 1500 ex_verified
     = (Inl (UnauthorizedException ''Invalid email or password''), ex_verified)"
proof -
  have h1: "findByEmailWithPassword ''b@x.com'' ex_registered = None
     \<or> (\<exists>u. findByEmailWithPassword ''b@x.com'' ex_registered = Some u
            \<and> (\<not> emailVerified u \<or> \<not> bcrypt_compare ''Password1'' (user_password u)))"
    by (simp add: ex_registered_eq findByEmailWithPassword_def)
  have h2: "findByEmailWithPassword ''a@x.com'' ex_registered = None
     \<or> (\<exists>u. findByEmailWithPassword ''a@x.com'' ex_registered = Some u
            \<and> (\<not> emailVerified u \<or> \<not> bcrypt_compare ''Password1'' (user_password u)))"
    by (simp add: ex_registered_eq findByEmailWithPassword_def)
  have h3: "findByEmailWithPassword ''a@x.com'' ex_verified = None
     \<or> (\<exists>u. findByEmailWithPassword ''a@x.com'' ex_verified = Some u
            \<and> (\<not> emailVerified u \<or> \<not> bcrypt_compare ''wrong'' (user_password u)))"
    by (simp add: ex_verified_eq findByEmailWithPassword_def)
  have e1: "\<not> (\<exists>u. findByEmailWithPassword ''b@x.com'' ex_registered = Some u \<and> \<not> emailVerified u)"
    by (simp add: ex_registered_eq findByEmailWithPassword_def)
  have e2: "\<exists>u. findByEmailWithPassword ''a@x.com'' ex_registered = Some u \<and> \<not> emailVerified u"
    by (simp add: ex_registered_eq findByEmailWithPassword_def)
  have e3: "\<not> (\<exists>u. findByEmailWithPassword ''a@x.com'' ex_verified = Some u \<and> \<not> emailVerified u)"
    by (simp add: ex_verified_eq findByEmailWithPassword_def)
  show ?thesis
    using login_failure_messages [OF h1, of default_config None None "''t''" 500]
      login_failure_messages [OF h2, of default_config None None "''t''" 500]
      login_failure_messages [OF h3, of default_config None None "''t''" 1500]
      e1 e2 e3
    by simp
qed

section \<open>Revoking one session\<close>

text \<open>
  C7 as stated (revoking a session that is already revoked, or absent for that owner, is a
  no-op that succeeds) fails: the owner's second revocation of the session of the example,
  and the revocation of a session id that does not exist, both end in NotFound.
\<close>

theorem revokeSession_twice_not_found:
  "fst (revokeSession 1 1 ex_logged_in) = Inr ''Session revoked successfully''
   \<and> fst (revokeSession 1 1 ex_revoked) = Inl (NotFoundException ''Session not found'')
   \<and> fst (revokeSession 1 7 ex_logged_in) = Inl (NotFoundException ''Session not found'')"
  by (simp add: ex_revoked_def ex_logged_in_eq revokeSession_def Let_def)

lemma map_if_id: "(\<And>x. x \<in> set xs \<Longrightarrow> \<not> P x) \<Longrightarrow> map (\<lambda>x. if P x then f x else x) xs = xs"
  by (induction xs) auto

text \<open>
  C7, amended: \<open>revokeSession(userId, sessionId)\<close> succeeds, marking the session revoked,
  exactly when an unrevoked session with that id owned by that user exists; in every other
  case (already revoked, absent, or owned by another user) it fails with NotFound "Session
  not found" and leaves the store unchanged.
\<close>

theorem revokeSession_outcome:
  "revokeSession uid sid d =
     (if \<exists>r \<in> set (refresh_tokens d). rt_id r = sid \<and> rt_userId r = uid \<and> \<not> revoked r
      then (Inr ''Session revoked successfully'',
            d\<lparr>refresh_tokens := map (\<lambda>r. if rt_id r = sid \<and> rt_userId r = uid \<and> \<not> revoked r
                                           then r\<lparr>revoked := True\<rparr> else r) (refresh_tokens d)\<rparr>)
      else (Inl (NotFoundException ''Session not found''), d))"
proof (cases "\<exists>r \<in> set (refresh_tokens d). rt_id r = sid \<and> rt_userId r = uid \<and> \<not> revoked r")
  case True
  then have "filter (\<lambda>r. rt_id r = sid \<and> rt_userId r = uid \<and> \<not> revoked r) (refresh_tokens d) \<noteq> []"
    by (auto simp: filter_empty_conv)
  with True show ?thesis by (simp add: revokeSession_def Let_def)
next
  case False
  then have e: "filter (\<lambda>r. rt_id r = sid \<and> rt_userId r = uid \<and> \<not> revoked r) (refresh_tokens d) = []"
    by (auto simp: filter_empty_conv)
  from False have m: "map (\<lambda>r. if rt_id r = sid \<and> rt_userId r = uid \<and> \<not> revoked r
                                then r\<lparr>revoked := True\<rparr> else r) (refresh_tokens d)
                      = refresh_tokens d"
    by (intro map_if_id) auto
  from False e m show ?thesis by (simp add: revokeSession_def Let_def)
qed

theorem revokeSession_outcome_witness:
  "revokeSession 1 1 ex_revoked = (Inl (NotFoundException ''Session not found''), ex_revoked)
   \<and> revokeSession 2 1 ex_logged_in = (Inl (NotFoundException ''Session not found''), ex_logged_in)
   \<and> fst (revokeSession 1 1 ex_logged_in) = Inr ''Session revoked successfully''"
proof -
  have a: "\<not> (\<exists>r \<in> set (refresh_tokens ex_revoked). rt_id r = 1 \<and> rt_userId r = 1 \<and> \<not> revoked r)"
    by (simp add: ex_revoked_eq)
  have b: "\<not> (\<exists>r \<in> set (refresh_tokens ex_logged_in). rt_id r = 1 \<and> rt_userId r = 2 \<and> \<not> revoked r)"
    by (simp add: ex_logged_in_eq)
  have c: "\<exists>r \<in> set (refresh_tokens ex_logged_in). rt_id r = 1 \<and> rt_userId r = 1 \<and> \<not> revoked r"
    by (simp add: ex_logged_in_eq)
  show ?thesis
    using a b c revokeSession_outcome [of 1 1 ex_revoked] revokeSession_outcome [of 2 1 ex_logged_in]
      revokeSession_outcome [of 1 1 ex_logged_in]
    by simp
qed

section \<open>Validation of an access token's user\<close>

text \<open>
  C8 as stated (acceptance of a token with a valid signature and expiry does not depend on
  the store) fails: the payload the login of the example mints is accepted against the
  store of that moment, and rejected against a store without the user and against the
  store in which the address is not verified.
\<close>

theorem validation_depends_on_store:
  "validateUser ex_payload ex_verified \<noteq> None
   \<and> validateUser ex_payload empty_db = None
   \<and> validateUser ex_payload ex_registered = None"
  by (simp add: ex_payload_def ex_verified_eq ex_registered_eq empty_db_def validateUser_def
      findByEmail_def sanitizeUser_def)

text \<open>
  C8, amended: past the signature and expiry checks, per-request validation looks the
  payload's email up in the store and accepts exactly when a user with that email exists
  now and has \<open>emailVerified\<close> true; the user it yields is the stored one.
\<close>

theorem validateUser_accepts_iff:
  "validateUser payload d = Some v \<longleftrightarrow>
     (\<exists>u. find (\<lambda>u. user_email u = jwt_email payload) (users d) = Some u
          \<and> emailVerified u \<and> v = sanitizeUser u)"
  by (auto simp: validateUser_def findByEmail_def sanitizeUser_def split: option.splits)

theorem validateUser_accepts_iff_witness:
  "validateUser ex_payload ex_verified = Some \<lparr>uv_id = 1, uv_email = ''a@x.com'',
      uv_name = Some ''A'', uv_emailVerified = True, uv_createdAt = 0\<rparr>"
proof -
  have "\<exists>u. find (\<lambda>u. user_email u = jwt_email ex_payload) (users ex_verified) = Some u
          \<and> emailVerified u \<and> \<lparr>uv_id = 1, uv_email = ''a@x.com'',
      uv_name = Some ''A'', uv_emailVerified = True, uv_createdAt = 0\<rparr> = sanitizeUser u"
    by (simp add: ex_payload_def ex_verified_eq sanitizeUser_def)
  then show ?thesis using validateUser_accepts_iff [of ex_payload ex_verified] by simp
qed

section \<open>The listing of active sessions\<close>

text \<open>
  C10: the listing tests the owner and the revoked flag only, never the expiry. The
  sessions \<open>getActiveSessions\<close> returns for a user are exactly the views of the user's
  rows that are not revoked, one per row, newest first; so a session of the user that was
  never revoked appears in it even when its \<open>expiresAt\<close> lies in the past.
\<close>

theorem expired_unrevoked_session_listed:
  "set (getActiveSessions uid d)
     = session_view_of ` {r \<in> set (refresh_tokens d). rt_userId r = uid \<and> \<not> revoked r}
   \<and> length (getActiveSessions uid d)
     = length (filter (\<lambda>r. rt_userId r = uid \<and> \<not> revoked r) (refresh_tokens d))
   \<and> sorted (map (\<lambda>s. - sv_createdAt s) (getActiveSessions uid d))
   \<and> (r \<in> set (refresh_tokens d) \<and> rt_userId r = uid \<and> \<not> revoked r \<and> rt_expiresAt r < now
        \<longrightarrow> session_view_of r \<in> set (getActiveSessions uid d))"
proof -
  let ?f = "\<lambda>session. \<lparr>sv_id = rt_id session, sv_userAgent = or_unknown (userAgent session),
                       sv_ipAddress = or_unknown (ipAddress session),
                       sv_createdAt = rt_createdAt session,
                       sv_expiresAt = rt_expiresAt session\<rparr>"
  have f: "?f = session_view_of" by (rule ext) (simp add: session_view_of_def)
  have g: "getActiveSessions uid d = map session_view_of (sort_key (\<lambda>r. - rt_createdAt r)
            (filter (\<lambda>r. rt_userId r = uid \<and> \<not> revoked r) (refresh_tokens d)))"
    unfolding getActiveSessions_def f ..
  have s: "set (getActiveSessions uid d)
     = session_view_of ` {r \<in> set (refresh_tokens d). rt_userId r = uid \<and> \<not> revoked r}"
    by (simp add: g)
  have l: "length (getActiveSessions uid d)
     = length (filter (\<lambda>r. rt_userId r = uid \<and> \<not> revoked r) (refresh_tokens d))"
    by (simp add: g)
  have c: "(\<lambda>s. - sv_createdAt s) \<circ> session_view_of = (\<lambda>r. - rt_createdAt r)"
    by (rule ext) (simp add: session_view_of_def)
  have o: "sorted (map (\<lambda>s. - sv_createdAt s) (getActiveSessions uid d))"
    by (simp add: g c)
  from s l o show ?thesis by auto
qed

theorem expired_unrevoked_session_listed_witness:
  "\<lparr>sv_id = 1, sv_userAgent = ''agent'', sv_ipAddress = ''10.0.0.1'', sv_createdAt = 2000,
     sv_expiresAt = 2592002000\<rparr> \<in> set (getActiveSessions 1 ex_logged_in)
   \<and> (2592002000 :: int) < 3000000000
   \<and> set (getActiveSessions 1 ex_revoked) = {}
   \<and> set (getActiveSessions 2 ex_logged_in) = {}"
proof -
  let ?r = "\<lparr>rt_id = 1, hashedToken = Sha256Hex ''tokenA'', rt_expiresAt = 2592002000,
             revoked = False, userAgent = Some ''agent'', ipAddress = Some ''10.0.0.1'',
             rt_createdAt = 2000, rt_userId = 1\<rparr>"
  have a: "?r \<in> set (refresh_tokens ex_logged_in) \<and> rt_userId ?r = 1 \<and> \<not> revoked ?r
       \<and> rt_expiresAt ?r < 3000000000"
    by (simp add: ex_logged_in_eq)
  have v: "session_view_of ?r = \<lparr>sv_id = 1, sv_userAgent = ''agent'', sv_ipAddress = ''10.0.0.1'',
      sv_createdAt = 2000, sv_expiresAt = 2592002000\<rparr>"
    by (simp add: session_view_of_def or_unknown_def)
  have b: "{r \<in> set (refresh_tokens ex_revoked). rt_userId r = 1 \<and> \<not> revoked r} = {}"
    by (simp add: ex_revoked_eq)
  have c: "{r \<in> set (refresh_tokens ex_logged_in). rt_userId r = 2 \<and> \<not> revoked r} = {}"
    by (auto simp: ex_logged_in_eq)
  have 1: "session_view_of ?r \<in> set (getActiveSessions 1 ex_logged_in)"
    using a expired_unrevoked_session_listed [of 1 ex_logged_in ?r 3000000000] by blast
  have 2: "set (getActiveSessions 1 ex_revoked) = {}"
    using conjunct1 [OF expired_unrevoked_session_listed [of 1 ex_revoked ?r 3000000000]]
    unfolding b by simp
  have 3: "set (getActiveSessions 2 ex_logged_in) = {}"
    using conjunct1 [OF expired_unrevoked_session_listed [of 2 ex_logged_in ?r 3000000000]]
    unfolding c by simp
  from 1 2 3 show ?thesis unfolding v by simp
qed

section \<open>Refresh rotation\<close>

lemma rt_succ_refl: "rt_succ toks xs xs"
  unfolding rt_succ_def by (rule exI [of _ id], rule exI [of _ "[]"]) simp

lemma rt_succ_revoke:
  "rt_succ toks xs (map (\<lambda>r. if P r then r\<lparr>revoked := True\<rparr> else r) xs)"
  unfolding rt_succ_def
  by (rule exI [of _ "\<lambda>r. if P r then r\<lparr>revoked := True\<rparr> else r"], rule exI [of _ "[]"]) simp

lemma rt_succ_revoke_append:
  "hashedToken row = hashToken tok \<Longrightarrow> tok \<in> set toks \<Longrightarrow>
   rt_succ toks xs (map (\<lambda>r. if P r then r\<lparr>revoked := True\<rparr> else r) xs @ [row])"
  unfolding rt_succ_def
  by (rule exI [of _ "\<lambda>r. if P r then r\<lparr>revoked := True\<rparr> else r"], rule exI [of _ "[row]"]) auto

lemma rt_succ_append:
  "hashedToken row = hashToken tok \<Longrightarrow> tok \<in> set toks \<Longrightarrow> rt_succ toks xs (xs @ [row])"
  unfolding rt_succ_def
  by (rule exI [of _ id], rule exI [of _ "[row]"]) auto

lemma create_refresh_tokens [simp]:
  "refresh_tokens (snd (createEmailVerificationOtp cfg email uid code now d)) = refresh_tokens d"
  by (simp add: createEmailVerificationOtp_def cleanupExpiredOtps_def Let_def split: option.splits)

lemma verifyEmailOtp_refresh_tokens [simp]:
  "refresh_tokens (snd (verifyEmailOtp email code t0 t1 d)) = refresh_tokens d"
  by (simp add: verifyEmailOtp_def cleanupExpiredOtps_def Let_def split: option.splits)

lemma users_create_refresh_tokens [simp]:
  "refresh_tokens (snd (users_create email pw name now d)) = refresh_tokens d"
  by (simp add: users_create_def Let_def split: option.splits)

lemma register_refresh_tokens:
  "refresh_tokens (snd (register cfg email pw name code mail_ok now d)) = refresh_tokens d"
proof -
  have a: "\<And>x d1 y d2. users_create email pw (name_or_null name) now d = (x, d1)
      \<Longrightarrow> refresh_tokens d1 = refresh_tokens d"
    using users_create_refresh_tokens [of email pw "name_or_null name" now d] by simp
  have b: "\<And>u d1 y d2. createEmailVerificationOtp cfg email u code now d1 = (y, d2)
      \<Longrightarrow> refresh_tokens d2 = refresh_tokens d1"
    subgoal for u d1 y d2 using create_refresh_tokens [of cfg email u code now d1] by simp
    done
  show ?thesis
    by (auto simp: register_def split: option.splits prod.splits sum.splits dest!: a b)
qed

lemma verifyEmail_refresh_tokens:
  "refresh_tokens (snd (verifyEmail email code t0 t1 d)) = refresh_tokens d"
proof -
  have a: "\<And>x d1. verifyEmailOtp email code t0 t1 d = (x, d1)
      \<Longrightarrow> refresh_tokens d1 = refresh_tokens d"
    using verifyEmailOtp_refresh_tokens [of email code t0 t1 d] by simp
  show ?thesis
    by (auto simp: verifyEmail_def users_verifyEmail_def Let_def
        split: option.splits prod.splits sum.splits bool.splits dest!: a)
qed

lemma resendOtp_refresh_tokens:
  "refresh_tokens (snd (resendOtp cfg email code mail_ok now d)) = refresh_tokens d"
proof -
  have b: "\<And>u y d2. createEmailVerificationOtp cfg email u code now d = (y, d2)
      \<Longrightarrow> refresh_tokens d2 = refresh_tokens d"
    subgoal for u y d2 using create_refresh_tokens [of cfg email u code now d] by simp
    done
  show ?thesis
    by (auto simp: resendOtp_def split: option.splits prod.splits sum.splits dest!: b)
qed

lemma login_succ:
  "rt_succ [token] (refresh_tokens d) (refresh_tokens (snd (login cfg email pw ua ip token now d)))"
  by (auto simp: login_def generateTokens_def Let_def rt_succ_refl
      split: option.splits intro!: rt_succ_append [of _ token])

lemma refreshToken_succ:
  "rt_succ [newToken] (refresh_tokens d)
     (refresh_tokens (snd (refreshToken cfg token ua ip newToken now d)))"
  by (auto simp: refreshToken_def refreshToken_rotate_def revoke_by_id_def generateTokens_def
      Let_def rt_succ_refl rt_succ_revoke
      split: option.splits intro!: rt_succ_revoke_append [of _ newToken])

lemma auth_step_succ:
  "rt_succ (drawn_tokens op) (refresh_tokens d) (refresh_tokens (auth_step cfg op d))"
proof (cases op)
  case (Register email pw name code mail_ok now)
  then show ?thesis by (simp add: register_refresh_tokens rt_succ_refl)
next
  case (VerifyEmail email code t0 t1)
  then show ?thesis by (simp add: verifyEmail_refresh_tokens rt_succ_refl)
next
  case (ResendOtp email code mail_ok now)
  then show ?thesis by (simp add: resendOtp_refresh_tokens rt_succ_refl)
next
  case (Login email pw ua ip token now)
  then show ?thesis by (simp add: login_succ)
next
  case (RefreshToken token ua ip newToken now)
  then show ?thesis by (simp add: refreshToken_succ)
next
  case (Logout token)
  then show ?thesis by (simp add: logout_def rt_succ_refl rt_succ_revoke)
next
  case (LogoutFromAllDevices uid)
  then show ?thesis by (simp add: logoutFromAllDevices_def rt_succ_revoke)
next
  case (RevokeSession uid sid)
  then show ?thesis by (simp add: revokeSession_def Let_def rt_succ_revoke)
qed

lemma hashToken_inj [simp]: "hashToken a = hashToken b \<longleftrightarrow> a = b"
  by (simp add: hashToken_def)

lemma rt_succ_dead:
  assumes "rt_succ toks xs ys" and "token \<notin> set toks" and "token_dead token xs"
  shows "token_dead token ys"
  using assms unfolding rt_succ_def token_dead_def by (auto; metis)

lemma rt_succ_distinct:
  assumes "rt_succ toks xs ys" and "distinct (map hashedToken xs)"
    and "hashedToken ` set xs \<subseteq> hashToken ` G" and "set toks \<inter> G = {}"
  shows "distinct (map hashedToken ys) \<and> hashedToken ` set ys \<subseteq> hashToken ` (G \<union> set toks)"
proof -
  from assms(1) obtain f extra where ys: "ys = map f xs @ extra"
    and f: "\<And>r. hashedToken (f r) = hashedToken r"
    and ex: "extra = [] \<or> (\<exists>row tok. extra = [row] \<and> tok \<in> set toks
                               \<and> hashedToken row = hashToken tok)"
    unfolding rt_succ_def by blast
  have hf: "hashedToken \<circ> f = hashedToken" by (rule ext) (simp add: f)
  from ex show ?thesis
  proof
    assume "extra = []"
    with ys assms(2,3) show ?thesis by (auto simp: hf f)
  next
    assume "\<exists>row tok. extra = [row] \<and> tok \<in> set toks \<and> hashedToken row = hashToken tok"
    then obtain row tok where e: "extra = [row]" "tok \<in> set toks" "hashedToken row = hashToken tok"
      by blast
    have "tok \<notin> G" using e(2) assms(4) by auto
    then have "hashToken tok \<notin> hashedToken ` set xs" using assms(3) by auto
    then have d: "distinct (map hashedToken ys)"
      using ys e assms(2) by (simp add: hf f image_iff)
    have s: "hashedToken ` set ys \<subseteq> hashToken ` (G \<union> set toks)"
      using ys e assms(3) by (auto simp: f)
    from d s show ?thesis by simp
  qed
qed

lemma auth_run_append: "auth_run cfg (xs @ ys) d = auth_run cfg ys (auth_run cfg xs d)"
  by (induction xs arbitrary: d) auto

lemma auth_run_dead:
  "token_dead token (refresh_tokens d) \<Longrightarrow> token \<notin> set (concat (map drawn_tokens ops))
   \<Longrightarrow> token_dead token (refresh_tokens (auth_run cfg ops d))"
proof (induction ops arbitrary: d)
  case Nil
  then show ?case by simp
next
  case (Cons a ops)
  have "token_dead token (refresh_tokens (auth_step cfg a d))"
    using rt_succ_dead [OF auth_step_succ [of a d cfg], of token] Cons.prems by simp
  then show ?case using Cons by simp
qed

lemma auth_run_distinct:
  "distinct (map hashedToken (refresh_tokens d)) \<Longrightarrow>
   hashedToken ` set (refresh_tokens d) \<subseteq> hashToken ` G \<Longrightarrow>
   distinct (concat (map drawn_tokens ops)) \<Longrightarrow>
   set (concat (map drawn_tokens ops)) \<inter> G = {} \<Longrightarrow>
   distinct (map hashedToken (refresh_tokens (auth_run cfg ops d)))
   \<and> hashedToken ` set (refresh_tokens (auth_run cfg ops d))
       \<subseteq> hashToken ` (G \<union> set (concat (map drawn_tokens ops)))"
proof (induction ops arbitrary: d G)
  case Nil
  then show ?case by simp
next
  case (Cons a ops)
  have g: "set (drawn_tokens a) \<inter> G = {}" using Cons.prems(4) by auto
  have s: "distinct (map hashedToken (refresh_tokens (auth_step cfg a d)))
     \<and> hashedToken ` set (refresh_tokens (auth_step cfg a d)) \<subseteq> hashToken ` (G \<union> set (drawn_tokens a))"
    using rt_succ_distinct [OF auth_step_succ [of a d cfg] Cons.prems(1) Cons.prems(2) g] .
  have d': "distinct (concat (map drawn_tokens ops))" using Cons.prems(3) by simp
  have i: "set (concat (map drawn_tokens ops)) \<inter> (G \<union> set (drawn_tokens a)) = {}"
    using Cons.prems(3,4) by auto
  have "distinct (map hashedToken (refresh_tokens (auth_run cfg ops (auth_step cfg a d))))
    \<and> hashedToken ` set (refresh_tokens (auth_run cfg ops (auth_step cfg a d)))
       \<subseteq> hashToken ` ((G \<union> set (drawn_tokens a)) \<union> set (concat (map drawn_tokens ops)))"
    using Cons.IH [OF conjunct1 [OF s] conjunct2 [OF s] d' i] .
  then show ?case by (simp add: Un_assoc)
qed

lemma find_row_props: "find P xs = Some r \<Longrightarrow> r \<in> set xs \<and> P r"
  by (induction xs) (auto split: if_splits)

lemma refreshToken_success_found:
  assumes "fst (refreshToken cfg token ua ip newToken now d) = Inr res"
  shows "\<exists>r \<in> set (refresh_tokens d). hashedToken r = hashToken token \<and> \<not> revoked r"
proof -
  from assms obtain r where "find (\<lambda>r. hashedToken r = hashToken token \<and> \<not> revoked r) (refresh_tokens d) = Some r"
    by (auto simp: refreshToken_def refreshToken_rotate_def refreshToken_find_def split: option.splits)
  from find_row_props [OF this] show ?thesis by blast
qed

lemma distinct_hash_same_row:
  "distinct (map hashedToken xs) \<Longrightarrow> r \<in> set xs \<Longrightarrow> r' \<in> set xs
   \<Longrightarrow> hashedToken r = hashedToken r' \<Longrightarrow> r = r'"
  by (metis distinct_map inj_onD)

lemma refreshToken_success_dead:
  assumes "fst (refreshToken cfg token ua ip newToken now d) = Inr res"
    and "distinct (map hashedToken (refresh_tokens d))" and "newToken \<noteq> token"
  shows "token_dead token (refresh_tokens (snd (refreshToken cfg token ua ip newToken now d)))"
proof -
  from assms(1) obtain r where fr: "find (\<lambda>r. hashedToken r = hashToken token \<and> \<not> revoked r) (refresh_tokens d) = Some r"
    by (auto simp: refreshToken_def refreshToken_rotate_def refreshToken_find_def split: option.splits)
  from find_row_props [OF fr] have r: "r \<in> set (refresh_tokens d)" "hashedToken r = hashToken token"
    by auto
  have u: "\<And>r'. r' \<in> set (refresh_tokens d) \<Longrightarrow> hashedToken r' = hashToken token \<Longrightarrow> r' = r"
    using distinct_hash_same_row [OF assms(2)] r by metis
  from assms(1) fr obtain row where
    s: "refresh_tokens (snd (refreshToken cfg token ua ip newToken now d))
        = map (\<lambda>x. if rt_id x = rt_id r then x\<lparr>revoked := True\<rparr> else x) (refresh_tokens d) @ [row]"
      "hashedToken row = hashToken newToken"
    by (auto simp: refreshToken_def refreshToken_rotate_def refreshToken_find_def revoke_by_id_def
        generateTokens_def Let_def split: option.splits if_splits)
  show ?thesis
    unfolding token_dead_def s using u assms(3) s(2) by auto
qed

lemma dead_refresh_fails:
  assumes "token_dead token (refresh_tokens d)"
  shows "refreshToken cfg token ua ip newToken now d
     = (Inl (UnauthorizedException ''Invalid refresh token''), d)"
proof -
  have "find (\<lambda>r. hashedToken r = hashToken token \<and> \<not> revoked r) (refresh_tokens d) = None"
    using assms by (auto simp: find_None_iff token_dead_def)
  then show ?thesis
    by (simp add: refreshToken_def refreshToken_find_def refreshToken_rotate_def)
qed

text \<open>
  C1: refresh rotation is single-use. In every execution of the service from the empty
  store in which the generator of refresh tokens never repeats a value, once
  \<open>refreshToken\<close> has succeeded for a token, every later call of \<open>refreshToken\<close>
  with that token, whatever operations come in between, fails with Unauthorized ("Invalid
  refresh token") and changes nothing.
\<close>

theorem refresh_rotation_single_use:
  assumes "distinct (concat (map drawn_tokens (before @ RefreshToken token ua ip newToken now # after)))"
    and "fst (refreshToken cfg token ua ip newToken now (auth_run cfg before empty_db)) = Inr res"
  shows "refreshToken cfg token ua' ip' newToken' now'
           (auth_run cfg (before @ RefreshToken token ua ip newToken now # after) empty_db)
         = (Inl (UnauthorizedException ''Invalid refresh token''),
            auth_run cfg (before @ RefreshToken token ua ip newToken now # after) empty_db)"
proof -
  let ?d1 = "auth_run cfg before empty_db"
  let ?d2 = "snd (refreshToken cfg token ua ip newToken now ?d1)"
  have db: "distinct (concat (map drawn_tokens before))" using assms(1) by simp
  have inv: "distinct (map hashedToken (refresh_tokens ?d1))
     \<and> hashedToken ` set (refresh_tokens ?d1) \<subseteq> hashToken ` ({} \<union> set (concat (map drawn_tokens before)))"
    by (rule auth_run_distinct) (simp_all add: empty_db_def db)
  from refreshToken_success_found [OF assms(2)]
  obtain r where r: "r \<in> set (refresh_tokens ?d1)" "hashedToken r = hashToken token" by blast
  from r(1) have "hashedToken r \<in> hashedToken ` set (refresh_tokens ?d1)" by (rule imageI)
  with conjunct2 [OF inv] r(2)
  have "hashToken token \<in> hashToken ` set (concat (map drawn_tokens before))" by auto
  then have tb: "token \<in> set (concat (map drawn_tokens before))" by auto
  with assms(1) have n: "newToken \<noteq> token" and ta: "token \<notin> set (concat (map drawn_tokens after))"
    by auto
  have d2: "token_dead token (refresh_tokens ?d2)"
    using refreshToken_success_dead [OF assms(2) conjunct1 [OF inv] n] .
  have "token_dead token (refresh_tokens (auth_run cfg after ?d2))"
    using auth_run_dead [OF d2 ta] .
  then have "token_dead token (refresh_tokens
      (auth_run cfg (before @ RefreshToken token ua ip newToken now # after) empty_db))"
    by (simp add: auth_run_append)
  then show ?thesis by (rule dead_refresh_fails)
qed


lemma ex_before_run: "auth_run default_config ex_before empty_db = ex_logged_in"
  by (simp add: ex_before_def ex_logged_in_def ex_verified_def ex_registered_def)

lemma ex_rotated_eq:
  "refreshToken default_config ''tokenA'' None None ''tokenB'' 3000 ex_logged_in =
   (Inr \<lparr>res_user = \<lparr>uv_id = 1, uv_email = ''a@x.com'', uv_name = Some ''A'',
                      uv_emailVerified = True, uv_createdAt = 0\<rparr>,
          res_accessToken = JwtSign \<lparr>sub = 1, jwt_email = ''a@x.com'', jwt_emailVerified = True\<rparr> ''15m'',
          res_refreshToken = ''tokenB''\<rparr>,
    ex_logged_in\<lparr>refresh_tokens :=
      [\<lparr>rt_id = 1, hashedToken = Sha256Hex ''tokenA'', rt_expiresAt = 2592002000,
             revoked = True, userAgent = Some ''agent'', ipAddress = Some ''10.0.0.1'',
             rt_createdAt = 2000, rt_userId = 1\<rparr>,
       \<lparr>rt_id = 2, hashedToken = Sha256Hex ''tokenB'', rt_expiresAt = 2592003000,
             revoked = False, userAgent = None, ipAddress = None,
             rt_createdAt = 3000, rt_userId = 1\<rparr>], next_rt_id := 3\<rparr>)"
  by (simp add: ex_logged_in_eq refreshToken_def refreshToken_find_def refreshToken_rotate_def
      revoke_by_id_def generateTokens_def hashToken_def sanitizeUser_def Let_def thirty_days_def
      default_config_def)

theorem refresh_rotation_single_use_witness:
  "fst (refreshToken default_config ''tokenA'' None None ''tokenB'' 3000
          (auth_run default_config ex_before empty_db))
     = Inr \<lparr>res_user = \<lparr>uv_id = 1, uv_email = ''a@x.com'', uv_name = Some ''A'',
                      uv_emailVerified = True, uv_createdAt = 0\<rparr>,
          res_accessToken = JwtSign \<lparr>sub = 1, jwt_email = ''a@x.com'', jwt_emailVerified = True\<rparr> ''15m'',
          res_refreshToken = ''tokenB''\<rparr>
   \<and> fst (refreshToken default_config ''tokenA'' None None ''tokenD'' 5000
          (auth_run default_config
             (ex_before @ RefreshToken ''tokenA'' None None ''tokenB'' 3000 # ex_after) empty_db))
     = Inl (UnauthorizedException ''Invalid refresh token'')"
proof -
  have d: "distinct (concat (map drawn_tokens
             (ex_before @ RefreshToken ''tokenA'' None None ''tokenB'' 3000 # ex_after)))"
    by (simp add: ex_before_def ex_after_def)
  have s: "fst (refreshToken default_config ''tokenA'' None None ''tokenB'' 3000
          (auth_run default_config ex_before empty_db))
     = Inr \<lparr>res_user = \<lparr>uv_id = 1, uv_email = ''a@x.com'', uv_name = Some ''A'',
                      uv_emailVerified = True, uv_createdAt = 0\<rparr>,
          res_accessToken = JwtSign \<lparr>sub = 1, jwt_email = ''a@x.com'', jwt_emailVerified = True\<rparr> ''15m'',
          res_refreshToken = ''tokenB''\<rparr>"
    by (simp add: ex_before_run ex_rotated_eq)
  show ?thesis
    using s refresh_rotation_single_use [OF d s, of None None "''tokenD''" 5000] by simp
qed

section \<open>Two rotations of one token\<close>




section \<open>The OTP uniqueness invariant\<close>

lemma ex_reissued_eq: "ex_reissued =
  \<lparr>users = [\<lparr>user_id = 1, user_email = ''a@x.com'', user_name = Some ''A'',
              user_password = Bcrypt 12 ''Password1'', emailVerified = True, user_createdAt = 0\<rparr>],
   next_user_id = 2,
   otps = [\<lparr>otp_id = 1, otp_email = ''a@x.com'', hashedOtp = Bcrypt 10 ''123456'',
             otp_expiresAt = 600000, used = True, otp_type = email_verification,
             otp_createdAt = 0, otp_userId = Some 1\<rparr>,
           \<lparr>otp_id = 2, otp_email = ''a@x.com'', hashedOtp = Bcrypt 10 ''654321'',
             otp_expiresAt = 605000, used = False, otp_type = email_verification,
             otp_createdAt = 5000, otp_userId = Some 1\<rparr>],
   next_otp_id = 3, refresh_tokens = [], next_rt_id = 1\<rparr>"
  by (simp add: ex_reissued_def ex_verified_eq eval_defs)




















lemma createEmailVerificationOtp_phases:
  "createEmailVerificationOtp cfg email uid code now d =
     createEmailVerificationOtp_finish cfg email uid code now
       (fst (createEmailVerificationOtp_invalidate email now d))
       (snd (createEmailVerificationOtp_invalidate email now d))"
  by (simp add: createEmailVerificationOtp_def createEmailVerificationOtp_invalidate_def
      createEmailVerificationOtp_finish_def createEmailVerificationOtp_save_def Let_def
      split: option.splits)







section \<open>A failing email verification\<close>

text \<open>
  C6 as stated (a failing \<open>verifyEmail\<close> leaves the store unchanged and consumes no OTP)
  fails. Eleven minutes after the registration of the example, a call with a wrong code
  fails and the expired record is gone; and once the address is verified, a call with the
  live code of a further issuance fails with "Email is already verified" after that record
  has been marked used.
\<close>

theorem verifyEmail_failure_changes_store:
  "fst (verifyEmail ''a@x.com'' ''000000'' 660000 660000 ex_registered)
     = Inl (BadRequestException ''Invalid or expired OTP'')
   \<and> otps (snd (verifyEmail ''a@x.com'' ''000000'' 660000 660000 ex_registered)) = []
   \<and> otps ex_registered \<noteq> []
   \<and> fst (verifyEmail ''a@x.com'' ''654321'' 6000 6000 ex_reissued)
     = Inl (BadRequestException ''Email is already verified'')
   \<and> map used (otps ex_reissued) = [True, False]
   \<and> map used (otps (snd (verifyEmail ''a@x.com'' ''654321'' 6000 6000 ex_reissued))) = [True, True]"
  by (simp add: ex_registered_eq ex_reissued_eq eval_defs)

lemma verifyEmailOtp_false:
  "verifyEmailOtp email code t0 t1 d = (False, d1) \<Longrightarrow> d1 = cleanupExpiredOtps t0 d"
  by (auto simp: verifyEmailOtp_def Let_def split: option.splits if_splits)

lemma verifyEmailOtp_true:
  assumes "verifyEmailOtp email code t0 t1 d = (True, d1)"
  shows "\<exists>x \<in> set (otps (cleanupExpiredOtps t0 d)).
           otp_email x = email \<and> otp_type x = email_verification \<and> \<not> used x
         \<and> \<not> otp_expiresAt x < t1 \<and> verifyOtp code (hashedOtp x)
         \<and> d1 = (cleanupExpiredOtps t0 d)\<lparr>otps :=
                   map (\<lambda>y. if otp_id y = otp_id x then y\<lparr>used := True\<rparr> else y)
                       (otps (cleanupExpiredOtps t0 d))\<rparr>"
proof -
  let ?c = "cleanupExpiredOtps t0 d"
  let ?xs = "filter (\<lambda>x. otp_email x = email \<and> otp_type x = email_verification \<and> \<not> used x) (otps ?c)"
  from assms obtain x where x: "latest_otp ?xs = Some x" "\<not> otp_expiresAt x < t1"
    "verifyOtp code (hashedOtp x)"
    "d1 = ?c\<lparr>otps := map (\<lambda>y. if otp_id y = otp_id x then y\<lparr>used := True\<rparr> else y) (otps ?c)\<rparr>"
    by (auto simp: verifyEmailOtp_def Let_def split: option.splits if_splits)
  from latest_otp_in [OF x(1)] have "x \<in> set (otps ?c)" "otp_email x = email"
    "otp_type x = email_verification" "\<not> used x" by auto
  with x show ?thesis by blast
qed

lemma users_verifyEmail_found:
  assumes "findByEmail email d = Some u"
  shows "\<exists>v. fst (users_verifyEmail (uv_id u) d) = Inr v"
proof -
  from assms obtain w where w: "find (\<lambda>u. user_email u = email) (users d) = Some w"
    "u = sanitizeUser w"
    by (auto simp: findByEmail_def)
  let ?f = "\<lambda>u'. if user_id u' = uv_id u then u'\<lparr>emailVerified := True\<rparr> else u'"
  from find_row_props [OF w(1)] have "w \<in> set (users d)" by simp
  then have m: "?f w \<in> set (map ?f (users d))" by (rule imageI [of w "set (users d)" ?f, folded set_map])
  have "user_id (?f w) = uv_id u" using w(2) by (simp add: sanitizeUser_def)
  with m have "\<exists>x \<in> set (map (\<lambda>u'. if user_id u' = uv_id u then u'\<lparr>emailVerified := True\<rparr> else u') (users d)).
      user_id x = uv_id u"
    by blast
  then have "find (\<lambda>x. user_id x = uv_id u)
      (map (\<lambda>u'. if user_id u' = uv_id u then u'\<lparr>emailVerified := True\<rparr> else u') (users d)) \<noteq> None"
    unfolding find_None_iff by blast
  then show ?thesis
    by (auto simp: users_verifyEmail_def findOne_def Let_def split: option.splits)
qed

text \<open>
  C6, amended: a failing \<open>verifyEmail\<close> never changes the users or the sessions. When it
  fails because the OTP is invalid or expired, the store is changed by the sweep of the
  expired OTP records only and no record is marked used. When it fails with NotFound (no
  such user) or because the email is already verified, the OTP check has succeeded before:
  the matching record of the swept store has been marked used and stays so.
\<close>

theorem verifyEmail_failure_effect:
  assumes "verifyEmail email code t0 t1 d = (Inl e, d')"
  shows "users d' = users d \<and> refresh_tokens d' = refresh_tokens d
     \<and> ((e = BadRequestException ''Invalid or expired OTP'' \<and> d' = cleanupExpiredOtps t0 d)
        \<or> ((e = NotFoundException ''User not found''
               \<or> e = BadRequestException ''Email is already verified'')
           \<and> (\<exists>x \<in> set (otps (cleanupExpiredOtps t0 d)).
                  otp_email x = email \<and> otp_type x = email_verification \<and> \<not> used x
                \<and> verifyOtp code (hashedOtp x)
                \<and> d' = (cleanupExpiredOtps t0 d)\<lparr>otps :=
                          map (\<lambda>y. if otp_id y = otp_id x then y\<lparr>used := True\<rparr> else y)
                              (otps (cleanupExpiredOtps t0 d))\<rparr>)))"
proof -
  obtain b d1 where v: "verifyEmailOtp email code t0 t1 d = (b, d1)" by (cases "verifyEmailOtp email code t0 t1 d")
  show ?thesis
  proof (cases b)
    case False
    from v False have d1: "d1 = cleanupExpiredOtps t0 d" by (auto dest: verifyEmailOtp_false)
    from assms v False have "e = BadRequestException ''Invalid or expired OTP''" "d' = d1"
      by (auto simp: verifyEmail_def)
    with d1 show ?thesis by (simp add: cleanupExpiredOtps_def)
  next
    case True
    from v True have v': "verifyEmailOtp email code t0 t1 d = (True, d1)" by simp
    from verifyEmailOtp_true [OF v']
    obtain x where x: "x \<in> set (otps (cleanupExpiredOtps t0 d))" "otp_email x = email"
      "otp_type x = email_verification" "\<not> used x" "verifyOtp code (hashedOtp x)"
      "d1 = (cleanupExpiredOtps t0 d)\<lparr>otps :=
                   map (\<lambda>y. if otp_id y = otp_id x then y\<lparr>used := True\<rparr> else y)
                       (otps (cleanupExpiredOtps t0 d))\<rparr>"
      by blast
    have ok: "\<And>u. findByEmail email d1 = Some u \<Longrightarrow> \<not> uv_emailVerified u \<Longrightarrow>
       \<exists>v d2. users_verifyEmail (uv_id u) d1 = (Inr v, d2)"
      subgoal for u using users_verifyEmail_found [of email d1 u]
        by (cases "users_verifyEmail (uv_id u) d1") auto
      done
    from assms v True have e: "(e = NotFoundException ''User not found''
               \<or> e = BadRequestException ''Email is already verified'') \<and> d' = d1"
      by (auto simp: verifyEmail_def split: option.splits if_splits dest!: ok)
    have u: "users d1 = users d" "refresh_tokens d1 = refresh_tokens d"
      using x(6) by (simp_all add: cleanupExpiredOtps_def)
    from e u x show ?thesis by blast
  qed
qed

theorem verifyEmail_failure_effect_witness:
  "verifyEmail ''a@x.com'' ''000000'' 1000 1000 ex_registered
      = (Inl (BadRequestException ''Invalid or expired OTP''), ex_registered)
   \<and> cleanupExpiredOtps 1000 ex_registered = ex_registered
   \<and> fst (verifyEmail ''a@x.com'' ''654321'' 6000 6000 ex_reissued)
      = Inl (BadRequestException ''Email is already verified'')
   \<and> users (snd (verifyEmail ''a@x.com'' ''654321'' 6000 6000 ex_reissued)) = users ex_reissued"
proof -
  have a: "verifyEmail ''a@x.com'' ''000000'' 1000 1000 ex_registered
      = (Inl (BadRequestException ''Invalid or expired OTP''), ex_registered)"
    by (simp add: ex_registered_eq eval_defs)
  have c: "cleanupExpiredOtps 1000 ex_registered = ex_registered"
    by (simp add: ex_registered_eq cleanupExpiredOtps_def)
  have b: "verifyEmail ''a@x.com'' ''654321'' 6000 6000 ex_reissued
      = (Inl (BadRequestException ''Email is already verified''),
         snd (verifyEmail ''a@x.com'' ''654321'' 6000 6000 ex_reissued))"
    by (simp add: ex_reissued_eq eval_defs)
  have fb: "fst (verifyEmail ''a@x.com'' ''654321'' 6000 6000 ex_reissued)
      = Inl (BadRequestException ''Email is already verified'')"
    by (simp add: ex_reissued_eq eval_defs)
  show ?thesis
    using a c fb verifyEmail_failure_effect [OF a] verifyEmail_failure_effect [OF b] by simp
qed


end
